theory Spec2Isabelle
  imports Main "HOL-Library.Sublist" "HOL-Library.List_Lexorder" "HOL-Library.Char_ord"
    "HOL-Library.Multiset"
begin

section \<open>The blob-store contract (bs.ts)\<close>

text \<open>
  A blob is a byte string, a blob id is the (hex) string of its SHA256 digest. A JavaScript
  \<open>Error\<close> is modelled by its message: re-throwing an error object is returning the same
  value. Dates are integers (milliseconds). The field \<open>size\<close> of \<open>BlobProperties\<close> is \<open>size'\<close>
  here (\<open>size\<close> is a function of HOL).
\<close>

type_synonym content = string

record BlobProperties =
  blobId :: string
  size' :: nat
  createdAt :: int

record DownloadBlobOptions =
  range_opt :: "(nat \<times> nat option) option"

record ListBlobsOptions =
  opt_prefix :: "string option"
  opt_maxResults :: "int option"
  opt_continuationToken :: "string option"

record ListBlobsResult =
  blobs :: "BlobProperties list"
  continuationToken :: "string option"

datatype error = Error (message: string)

datatype permissions = PermRead | PermDelete

text \<open>
  The interface \<open>Bs\<close>. Every method of a store is asynchronous and may do anything to the
  outside world (another store, a socket, a call counter); a method is therefore a
  transformer of a world \<open>'w\<close> that returns either the error it rejects with (\<open>Inl\<close>) or
  its value (\<open>Inr\<close>). Two bindings that wrap the same store simply carry the same methods.
\<close>

record 'w Bs =
  bs_setBlob :: "content \<Rightarrow> 'w \<Rightarrow> (error + BlobProperties) \<times> 'w"
  bs_getBlob :: "string \<Rightarrow> DownloadBlobOptions option \<Rightarrow> 'w
                   \<Rightarrow> (error + content \<times> BlobProperties) \<times> 'w"
  bs_getBlobStream :: "string \<Rightarrow> 'w \<Rightarrow> (error + content) \<times> 'w"
  bs_deleteBlob :: "string \<Rightarrow> 'w \<Rightarrow> (error + unit) \<times> 'w"
  bs_blobExists :: "string \<Rightarrow> 'w \<Rightarrow> (error + bool) \<times> 'w"
  bs_getBlobProperties :: "string \<Rightarrow> 'w \<Rightarrow> (error + BlobProperties) \<times> 'w"
  bs_listBlobs :: "ListBlobsOptions \<Rightarrow> 'w \<Rightarrow> (error + ListBlobsResult) \<times> 'w"
  bs_generateSignedUrl :: "string \<Rightarrow> int \<Rightarrow> permissions \<Rightarrow> 'w \<Rightarrow> (error + string) \<times> 'w"

section \<open>BsMulti (bs-multi.ts)\<close>

text \<open>
  \<open>BsMultiBs\<close>: a store with its optional id, its priority and its two capability flags.
  The fields \<open>id\<close> and \<open>write\<close> of the source are \<open>id'\<close> and \<open>write'\<close> here (\<open>id\<close> is
  the identity function of HOL, \<open>write\<close> an Isar keyword); \<open>None\<close> is JavaScript's
  \<open>undefined\<close>. Priorities are integers.
\<close>

record 'w BsMultiBs =
  bs :: "'w Bs"
  id' :: "string option"
  priority :: int
  read :: bool
  write' :: bool

text \<open>The class has one field, the array \<open>_stores\<close>.\<close>

record 'w BsMulti =
  stores :: "'w BsMultiBs list"

subsection \<open>init\<close>

text \<open>The template literal \<open>`bs-${idx}`\<close>: the decimal digits of the index.\<close>

definition digit :: "nat \<Rightarrow> char" where
  "digit d = char_of (48 + d)"

fun show_nat :: "nat \<Rightarrow> string" where
  "show_nat n = (if n < 10 then [digit n] else show_nat (n div 10) @ [digit (n mod 10)])"

declare show_nat.simps [simp del]

text \<open>
  The loop \<open>for (idx = 0; idx < length; idx++) _stores[idx] = {..._stores[idx], id: `bs-${idx}`}\<close>:
  \<open>init_from idx\<close> is the loop from index \<open>idx\<close> on, over the elements not yet visited.
\<close>

fun init_from :: "nat \<Rightarrow> 'w BsMultiBs list \<Rightarrow> 'w BsMultiBs list" where
  "init_from idx [] = []"
| "init_from idx (s # ss) = s\<lparr>id' := Some (''bs-'' @ show_nat idx)\<rparr> # init_from (Suc idx) ss"

definition init :: "'w BsMulti \<Rightarrow> 'w BsMulti" where
  "init m = m\<lparr>stores := init_from 0 (stores m)\<rparr>"

subsection \<open>The derived views\<close>

text \<open>
  \<open>_stores.filter(...).sort((a, b) => a.priority - b.priority)\<close>. \<open>Array.prototype.sort\<close>
  is a stable sort; \<open>sort_key\<close> is the stable insertion sort of HOL.
\<close>

definition readables :: "'w BsMulti \<Rightarrow> 'w BsMultiBs list" where
  "readables m = sort_key priority (filter read (stores m))"

definition writables :: "'w BsMulti \<Rightarrow> 'w BsMultiBs list" where
  "writables m = sort_key priority (filter write' (stores m))"

subsection \<open>Fan-out writes: setBlob and deleteBlob\<close>

text \<open>
  \<open>Promise.all(writables.map(...))\<close>: \<open>map\<close> starts every call, in the order of the array, so
  every call is made whether or not another one rejects; here the calls run one after the
  other in that order. The promise resolves with the values in the order of the array, and
  rejects if some call rejects (here with the rejection of the first such call in the order
  of the array).
\<close>

fun promiseAll :: "('w \<Rightarrow> (error + 'a) \<times> 'w) list \<Rightarrow> 'w \<Rightarrow> (error + 'a list) \<times> 'w" where
  "promiseAll [] w = (Inr [], w)"
| "promiseAll (p # ps) w =
     (case p w of (r, w1) \<Rightarrow>
        (case promiseAll ps w1 of (rs, w2) \<Rightarrow>
           ((case r of Inl e \<Rightarrow> Inl e
             | Inr v \<Rightarrow> (case rs of Inl e \<Rightarrow> Inl e | Inr vs \<Rightarrow> Inr (v # vs))), w2)))"

definition setBlob :: "'w BsMulti \<Rightarrow> content \<Rightarrow> 'w \<Rightarrow> (error + BlobProperties) \<times> 'w" where
  "setBlob m content w =
     (if length (writables m) = 0 then (Inl (Error ''No writable Bs available''), w)
      else (case promiseAll (map (\<lambda>b. bs_setBlob (bs b) content) (writables m)) w of
              (Inl e, w') \<Rightarrow> (Inl e, w')
            | (Inr results, w') \<Rightarrow> (Inr (results ! 0), w')))"

definition deleteBlob :: "'w BsMulti \<Rightarrow> string \<Rightarrow> 'w \<Rightarrow> (error + unit) \<times> 'w" where
  "deleteBlob m bid w =
     (if length (writables m) = 0 then (Inl (Error ''No writable Bs available''), w)
      else (case promiseAll (map (\<lambda>b. bs_deleteBlob (bs b) bid) (writables m)) w of
              (Inl e, w') \<Rightarrow> (Inl e, w')
            | (Inr results, w') \<Rightarrow> (Inr (), w')))"

subsection \<open>Fan-out reads\<close>

text \<open>\<open>String.prototype.includes\<close>: the pattern occurs somewhere in the string.\<close>

fun includes_str :: "string \<Rightarrow> string \<Rightarrow> bool" where
  "includes_str [] p = (p = [])"
| "includes_str (c # cs) p = (if prefix p (c # cs) then True else includes_str cs p)"

definition isNotFound :: "error \<Rightarrow> bool" where
  "isNotFound err = includes_str (message err) ''Blob not found''"

text \<open>
  The block after the loop of \<open>getBlob\<close>, \<open>getBlobStream\<close>, \<open>getBlobProperties\<close> and
  \<open>generateSignedUrl\<close>: the error thrown when no readable answered. \<open>errors[0]\<close> is only
  reached when \<open>errors\<close> is not empty.
\<close>

definition reconcile :: "string \<Rightarrow> error list \<Rightarrow> error" where
  "reconcile bid errors =
     (let notFoundErrors = filter isNotFound errors
      in if length notFoundErrors = length errors then Error (''Blob not found: '' @ bid)
         else errors ! 0)"

text \<open>
  The loop \<open>for (const readable of this.readables) { try {...; break / return} catch (e)
  { errors.push(e); continue } }\<close> of the same four methods, for the call \<open>attempt\<close> that the
  method makes on a readable. It returns the value of the first call that resolves, with the
  readable that served it, and the errors pushed so far.
\<close>

fun tryReadables :: "('w BsMultiBs \<Rightarrow> 'w \<Rightarrow> (error + 'a) \<times> 'w) \<Rightarrow> 'w BsMultiBs list \<Rightarrow> error list
    \<Rightarrow> 'w \<Rightarrow> (('a \<times> 'w BsMultiBs) option \<times> error list) \<times> 'w" where
  "tryReadables attempt [] errors w = ((None, errors), w)"
| "tryReadables attempt (readable # rest) errors w =
     (case attempt readable w of
        (Inr result, w') \<Rightarrow> ((Some (result, readable), errors), w')
      | (Inl e, w') \<Rightarrow> tryReadables attempt rest (errors @ [e]) w')"

text \<open>
  The hot-swap writes \<open>bs.setBlob(result.content).catch(() => {})\<close>, awaited together: each
  outcome is dropped, only the effect on the world remains.
\<close>

fun hotSwapWrites :: "'w BsMultiBs list \<Rightarrow> content \<Rightarrow> 'w \<Rightarrow> 'w" where
  "hotSwapWrites [] content w = w"
| "hotSwapWrites (writable # rest) content w =
     hotSwapWrites rest content (snd (bs_setBlob (bs writable) content w))"

text \<open>\<open>readable.id ?? ''\<close>\<close>

definition idOrEmpty :: "'w BsMultiBs \<Rightarrow> string" where
  "idOrEmpty readable = (case id' readable of Some i \<Rightarrow> i | None \<Rightarrow> [])"

definition getBlob :: "'w BsMulti \<Rightarrow> string \<Rightarrow> DownloadBlobOptions option \<Rightarrow> 'w
    \<Rightarrow> (error + content \<times> BlobProperties) \<times> 'w" where
  "getBlob m bid options w =
     (if length (readables m) = 0 then (Inl (Error ''No readable Bs available''), w)
      else (case tryReadables (\<lambda>readable. bs_getBlob (bs readable) bid options)
                   (readables m) [] w of
              ((None, errors), w1) \<Rightarrow> (Inl (reconcile bid errors), w1)
            | ((Some (result, readable), errors), w1) \<Rightarrow>
                (let readFrom = idOrEmpty readable
                 in (Inr result,
                     if length (writables m) > 0
                     then hotSwapWrites
                            (filter (\<lambda>writable. id' writable \<noteq> Some readFrom) (writables m))
                            (fst result) w1
                     else w1))))"

definition getBlobStream :: "'w BsMulti \<Rightarrow> string \<Rightarrow> 'w \<Rightarrow> (error + content) \<times> 'w" where
  "getBlobStream m bid w =
     (if length (readables m) = 0 then (Inl (Error ''No readable Bs available''), w)
      else (case tryReadables (\<lambda>readable. bs_getBlobStream (bs readable) bid)
                   (readables m) [] w of
              ((None, errors), w1) \<Rightarrow> (Inl (reconcile bid errors), w1)
            | ((Some (result, readable), errors), w1) \<Rightarrow> (Inr result, w1)))"

definition getBlobProperties :: "'w BsMulti \<Rightarrow> string \<Rightarrow> 'w \<Rightarrow> (error + BlobProperties) \<times> 'w" where
  "getBlobProperties m bid w =
     (if length (readables m) = 0 then (Inl (Error ''No readable Bs available''), w)
      else (case tryReadables (\<lambda>readable. bs_getBlobProperties (bs readable) bid)
                   (readables m) [] w of
              ((None, errors), w1) \<Rightarrow> (Inl (reconcile bid errors), w1)
            | ((Some (result, readable), errors), w1) \<Rightarrow> (Inr result, w1)))"

definition generateSignedUrl :: "'w BsMulti \<Rightarrow> string \<Rightarrow> int \<Rightarrow> permissions \<Rightarrow> 'w
    \<Rightarrow> (error + string) \<times> 'w" where
  "generateSignedUrl m bid expiresIn perms w =
     (if length (readables m) = 0 then (Inl (Error ''No readable Bs available''), w)
      else (case tryReadables (\<lambda>readable. bs_generateSignedUrl (bs readable) bid expiresIn perms)
                   (readables m) [] w of
              ((None, errors), w1) \<Rightarrow> (Inl (reconcile bid errors), w1)
            | ((Some (result, readable), errors), w1) \<Rightarrow> (Inr result, w1)))"

text \<open>\<open>blobExists\<close>: the first readable that answers \<open>true\<close> wins, an error is skipped.\<close>

fun blobExists_loop :: "'w BsMultiBs list \<Rightarrow> string \<Rightarrow> 'w \<Rightarrow> bool \<times> 'w" where
  "blobExists_loop [] bid w = (False, w)"
| "blobExists_loop (readable # rest) bid w =
     (case bs_blobExists (bs readable) bid w of
        (Inr exists, w') \<Rightarrow> (if exists then (True, w') else blobExists_loop rest bid w')
      | (Inl e, w') \<Rightarrow> blobExists_loop rest bid w')"

definition blobExists :: "'w BsMulti \<Rightarrow> string \<Rightarrow> 'w \<Rightarrow> (error + bool) \<times> 'w" where
  "blobExists m bid w =
     (if length (readables m) = 0 then (Inl (Error ''No readable Bs available''), w)
      else (case blobExists_loop (readables m) bid w of (b, w') \<Rightarrow> (Inr b, w')))"

subsection \<open>listBlobs\<close>

text \<open>
  \<open>blobMap\<close> is a JavaScript \<open>Map\<close>: it keeps its keys in the order of their first insertion,
  so it is an association list. The source sets a key only when the map does not have it.
\<close>

type_synonym blobMap = "(string \<times> BlobProperties) list"

definition addBlob :: "blobMap \<Rightarrow> BlobProperties \<Rightarrow> blobMap" where
  "addBlob blobMap blob =
     (if map_of blobMap (blobId blob) = None then blobMap @ [(blobId blob, blob)] else blobMap)"

text \<open>A token is truthy when it is a string that is not empty.\<close>

definition truthy :: "string option \<Rightarrow> bool" where
  "truthy t = (case t of None \<Rightarrow> False | Some s \<Rightarrow> s \<noteq> [])"

text \<open>
  The \<open>do ... while (continuationToken)\<close> loop over the pages of one readable, inside its
  \<open>try\<close>. The loop runs as long as the store hands out tokens, so it takes fuel: the number of
  pages it may ask for; \<open>None\<close> is a loop that has not ended when the fuel is spent. A page
  is added to \<open>blobMap\<close> as soon as it arrives; when a call rejects, the \<open>catch\<close> goes on to
  the next readable with \<open>blobMap\<close> as it is then.
\<close>

fun collectPages :: "nat \<Rightarrow> 'w Bs \<Rightarrow> string option \<Rightarrow> string option \<Rightarrow> blobMap \<Rightarrow> 'w
    \<Rightarrow> (blobMap \<times> 'w) option" where
  "collectPages 0 store pfx token blobMap w = None"
| "collectPages (Suc fuel) store pfx token blobMap w =
     (case bs_listBlobs store
             \<lparr>opt_prefix = pfx, opt_maxResults = Some 1000, opt_continuationToken = token\<rparr> w of
        (Inl e, w') \<Rightarrow> Some (blobMap, w')
      | (Inr result, w') \<Rightarrow>
          (let blobMap' = foldl addBlob blobMap (blobs result)
           in if truthy (continuationToken result)
              then collectPages fuel store pfx (continuationToken result) blobMap' w'
              else Some (blobMap', w')))"

fun collectAll :: "nat \<Rightarrow> 'w BsMultiBs list \<Rightarrow> string option \<Rightarrow> blobMap \<Rightarrow> 'w
    \<Rightarrow> (blobMap \<times> 'w) option" where
  "collectAll fuel [] pfx blobMap w = Some (blobMap, w)"
| "collectAll fuel (readable # rest) pfx blobMap w =
     (case collectPages fuel (bs readable) pfx None blobMap w of
        None \<Rightarrow> None
      | Some (blobMap', w') \<Rightarrow> collectAll fuel rest pfx blobMap' w')"

text \<open>\<open>Array.prototype.findIndex\<close> and \<open>Array.prototype.slice\<close> (a negative index counts from the end).\<close>

fun findIndex :: "('a \<Rightarrow> bool) \<Rightarrow> 'a list \<Rightarrow> int" where
  "findIndex P [] = - 1"
| "findIndex P (x # xs) =
     (if P x then 0 else (let i = findIndex P xs in if i = - 1 then - 1 else i + 1))"

definition js_slice :: "'a list \<Rightarrow> int \<Rightarrow> int \<Rightarrow> 'a list" where
  "js_slice xs start fin =
     (let n = int (length xs);
          s = (if start < 0 then max (n + start) 0 else min start n);
          e = (if fin < 0 then max (n + fin) 0 else min fin n)
      in take (nat (e - s)) (drop (nat s) xs))"

text \<open>
  The second half of \<open>listBlobs\<close>, on the sorted array \<open>blobs\<close>: the page that the caller's
  \<open>maxResults\<close> and \<open>continuationToken\<close> select, and the token for the next one.
  \<open>maxResults\<close> is an integer here (a JavaScript number may also be a fraction).
\<close>

definition paginate :: "BlobProperties list \<Rightarrow> ListBlobsOptions \<Rightarrow> ListBlobsResult" where
  "paginate allBlobs options =
     (let maxResults = (case opt_maxResults options of Some k \<Rightarrow> k | None \<Rightarrow> int (length allBlobs));
          startIndex =
            (if truthy (opt_continuationToken options)
             then (let tokenIndex =
                         findIndex (\<lambda>blob. Some (blobId blob) = opt_continuationToken options) allBlobs
                   in if tokenIndex = - 1 then 0 else tokenIndex + 1)
             else 0);
          endIndex = min (startIndex + maxResults) (int (length allBlobs));
          pageBlobs = js_slice allBlobs startIndex endIndex
      in \<lparr>blobs = pageBlobs,
          continuationToken =
            (if endIndex < int (length allBlobs)
             then (if pageBlobs = [] then None else Some (blobId (last pageBlobs)))
             else None)\<rparr>)"

text \<open>
  \<open>Array.prototype.sort\<close> with a comparator \<open>cmp\<close>: a stable sort in which \<open>a\<close> stays before
  \<open>b\<close> when \<open>cmp a b <= 0\<close>. Each element is inserted into the sorted rest of the array,
  before the first element it does not come after, so elements that compare equal keep
  their order. (For a comparator that is not a consistent order JavaScript leaves the
  result to the engine; this is the result of insertion.)
\<close>

fun insertBy :: "('a \<Rightarrow> 'a \<Rightarrow> int) \<Rightarrow> 'a \<Rightarrow> 'a list \<Rightarrow> 'a list" where
  "insertBy cmp x [] = [x]"
| "insertBy cmp x (y # ys) = (if cmp x y \<le> 0 then x # y # ys else y # insertBy cmp x ys)"

definition js_sort :: "('a \<Rightarrow> 'a \<Rightarrow> int) \<Rightarrow> 'a list \<Rightarrow> 'a list" where
  "js_sort cmp xs = foldr (insertBy cmp) xs []"

text \<open>
  \<open>listBlobs\<close>. An absent \<open>options\<close> object is the record with no field set. The array is
  sorted by \<open>blobs.sort((a, b) => a.blobId.localeCompare(b.blobId))\<close>;
  \<open>String.prototype.localeCompare\<close> belongs to the JavaScript runtime and depends on its
  locale, so it is the parameter \<open>localeCompare\<close> here: negative, zero or positive as the
  first string sorts before, with or after the second.
\<close>

definition listBlobs :: "nat \<Rightarrow> (string \<Rightarrow> string \<Rightarrow> int) \<Rightarrow> 'w BsMulti \<Rightarrow> ListBlobsOptions \<Rightarrow> 'w
    \<Rightarrow> ((error + ListBlobsResult) \<times> 'w) option" where
  "listBlobs fuel localeCompare m options w =
     (if length (readables m) = 0 then Some (Inl (Error ''No readable Bs available''), w)
      else (case collectAll fuel (readables m) (opt_prefix options) [] w of
              None \<Rightarrow> None
            | Some (blobMap, w') \<Rightarrow>
                Some (Inr (paginate
                             (js_sort (\<lambda>a b. localeCompare (blobId a) (blobId b))
                                (map snd blobMap))
                             options), w')))"

section \<open>Notions used to state the properties\<close>

text \<open>
  \<open>allReject attempt tiers w\<close>: the calls \<open>attempt\<close> made on \<open>tiers\<close> one after the other from
  the world \<open>w\<close> all reject; the result is the list of their errors and the world they leave.
  It is \<open>None\<close> as soon as one call resolves.
\<close>

fun allReject :: "('b \<Rightarrow> 'w \<Rightarrow> (error + 'a) \<times> 'w) \<Rightarrow> 'b list \<Rightarrow> 'w \<Rightarrow> (error list \<times> 'w) option" where
  "allReject attempt [] w = Some ([], w)"
| "allReject attempt (b # rest) w =
     (case attempt b w of
        (Inr r, w') \<Rightarrow> None
      | (Inl e, w') \<Rightarrow>
          (case allReject attempt rest w' of
             None \<Rightarrow> None
           | Some (es, w'') \<Rightarrow> Some (e # es, w'')))"

text \<open>
  \<open>pagesUntilError fuel store pfx token w\<close>: the store, asked for its pages from \<open>token\<close> on
  as \<open>listBlobs\<close> of BsMulti asks (at most \<open>fuel\<close> calls), delivers the pages of the result,
  each with a token for the next one, and then rejects. It is \<open>None\<close> when the pagination ends
  without an error, or has not ended after \<open>fuel\<close> calls.
\<close>

fun pagesUntilError :: "nat \<Rightarrow> 'w Bs \<Rightarrow> string option \<Rightarrow> string option \<Rightarrow> 'w
    \<Rightarrow> (ListBlobsResult list \<times> 'w) option" where
  "pagesUntilError 0 store pfx token w = None"
| "pagesUntilError (Suc fuel) store pfx token w =
     (case bs_listBlobs store
             \<lparr>opt_prefix = pfx, opt_maxResults = Some 1000, opt_continuationToken = token\<rparr> w of
        (Inl e, w') \<Rightarrow> Some ([], w')
      | (Inr result, w') \<Rightarrow>
          (if truthy (continuationToken result)
           then (case pagesUntilError fuel store pfx (continuationToken result) w' of
                   None \<Rightarrow> None
                 | Some (pages, w'') \<Rightarrow> Some (result # pages, w''))
           else None))"



text \<open>
  The invariant of \<open>blobMap\<close>: no key twice, and every entry is kept under the id of its
  blob.
\<close>

definition wf_blobMap :: "blobMap \<Rightarrow> bool" where
  "wf_blobMap bm = (distinct (map fst bm) \<and> list_all (\<lambda>e. blobId (snd e) = fst e) bm)"

section \<open>Stores to run BsMulti on\<close>

text \<open>
  Modelled from the spec: \<open>digest\<close> stands for the SHA256 digest that names a blob, a
  function of the content that gives different ids to different contents.
\<close>

definition digest :: "content \<Rightarrow> string" where
  "digest c = ''sha256:'' @ c"

text \<open>
  Modelled from the spec: the properties of a blob when it is first stored, and the entry
  under which a store keeps it (the date is not modelled).
\<close>

definition propsOf :: "content \<Rightarrow> BlobProperties" where
  "propsOf c = \<lparr>blobId = digest c, size' = length c, createdAt = 0\<rparr>"

definition stored :: "content \<Rightarrow> string \<times> content \<times> BlobProperties" where
  "stored c = (digest c, (c, propsOf c))"

text \<open>
  Modelled from the spec: the in-memory store \<open>BsMem\<close> of the tests (bs-mem.ts is not among
  the sources), after the store contract of the specification and what the tests observe: a
  blob is kept under the digest of its content, storing it twice keeps one copy and returns
  the properties of the first, a fetch of an absent id rejects with \<open>Blob not found: <id>\<close>,
  a fetch with a byte range returns the bytes from \<open>start\<close> up to \<open>end\<close>, with the properties
  of the whole blob, and the listing is sorted by id.
  The world of \<open>memBs i\<close> is the list of the contents of all the stores; \<open>memBs i\<close> is the
  store at index \<open>i\<close>.
\<close>

type_synonym mem = "(string \<times> content \<times> BlobProperties) list"

definition memBs :: "nat \<Rightarrow> (mem list) Bs" where
  "memBs i =
     \<lparr>bs_setBlob = (\<lambda>c w.
        (case map_of (w ! i) (digest c) of
           Some (c', p) \<Rightarrow> (Inr p, w)
         | None \<Rightarrow> (Inr (propsOf c), w[i := (w ! i) @ [stored c]]))),
      bs_getBlob = (\<lambda>k options w.
        (case map_of (w ! i) k of
           None \<Rightarrow> (Inl (Error (''Blob not found: '' @ k)), w)
         | Some (c, p) \<Rightarrow>
             (Inr ((case options of
                      None \<Rightarrow> c
                    | Some opts \<Rightarrow>
                        (case range_opt opts of
                           None \<Rightarrow> c
                         | Some (start, None) \<Rightarrow> drop start c
                         | Some (start, Some fin) \<Rightarrow> take (fin - start) (drop start c))), p), w))),
      bs_getBlobStream = (\<lambda>k w.
        (case map_of (w ! i) k of
           None \<Rightarrow> (Inl (Error (''Blob not found: '' @ k)), w)
         | Some (c, p) \<Rightarrow> (Inr c, w))),
      bs_deleteBlob = (\<lambda>k w.
        (case map_of (w ! i) k of
           None \<Rightarrow> (Inl (Error (''Blob not found: '' @ k)), w)
         | Some (c, p) \<Rightarrow> (Inr (), w[i := filter (\<lambda>e. fst e \<noteq> k) (w ! i)]))),
      bs_blobExists = (\<lambda>k w. (Inr (map_of (w ! i) k \<noteq> None), w)),
      bs_getBlobProperties = (\<lambda>k w.
        (case map_of (w ! i) k of
           None \<Rightarrow> (Inl (Error (''Blob not found: '' @ k)), w)
         | Some (c, p) \<Rightarrow> (Inr p, w))),
      bs_listBlobs = (\<lambda>options w.
        (Inr (paginate
                (sort_key blobId
                   (filter (\<lambda>p. case opt_prefix options of None \<Rightarrow> True
                                 | Some pfx \<Rightarrow> prefix pfx (blobId p))
                      (map (\<lambda>e. snd (snd e)) (w ! i))))
                options), w)),
      bs_generateSignedUrl = (\<lambda>k expiresIn perms w.
        (case map_of (w ! i) k of
           None \<Rightarrow> (Inl (Error (''Blob not found: '' @ k)), w)
         | Some (c, p) \<Rightarrow> (Inr (''mem://'' @ k), w)))\<rparr>"

text \<open>
  A store that records the calls made on it: \<open>logged name store\<close> behaves as \<open>store\<close> and
  appends the name of each method called to a log that is part of the world.
\<close>

definition logCall :: "string \<Rightarrow> string \<Rightarrow> ('w \<Rightarrow> 'r \<times> 'w) \<Rightarrow> string list \<times> 'w
    \<Rightarrow> 'r \<times> string list \<times> 'w" where
  "logCall name method call lw =
     (case call (snd lw) of (r, w') \<Rightarrow> (r, (fst lw @ [name @ ''.'' @ method], w')))"

definition logged :: "string \<Rightarrow> 'w Bs \<Rightarrow> (string list \<times> 'w) Bs" where
  "logged name store =
     \<lparr>bs_setBlob = (\<lambda>c. logCall name ''setBlob'' (bs_setBlob store c)),
      bs_getBlob = (\<lambda>k options. logCall name ''getBlob'' (bs_getBlob store k options)),
      bs_getBlobStream = (\<lambda>k. logCall name ''getBlobStream'' (bs_getBlobStream store k)),
      bs_deleteBlob = (\<lambda>k. logCall name ''deleteBlob'' (bs_deleteBlob store k)),
      bs_blobExists = (\<lambda>k. logCall name ''blobExists'' (bs_blobExists store k)),
      bs_getBlobProperties = (\<lambda>k. logCall name ''getBlobProperties'' (bs_getBlobProperties store k)),
      bs_listBlobs = (\<lambda>options. logCall name ''listBlobs'' (bs_listBlobs store options)),
      bs_generateSignedUrl = (\<lambda>k expiresIn perms.
        logCall name ''generateSignedUrl'' (bs_generateSignedUrl store k expiresIn perms))\<rparr>"

text \<open>A method that rejects with a given message, as the stubs of the tests do.\<close>

definition rejects :: "string \<Rightarrow> 'w \<Rightarrow> (error + 'a) \<times> 'w" where
  "rejects msg w = (Inl (Error msg), w)"

subsection \<open>The configurations of the tests\<close>

text \<open>
  The two bindings of the test suite of BsMulti, as they are given to the constructor
  (no id): a local cache, read and written first, and a remote store that is only read.
  Their world is the log of the calls and the contents of the two stores.
\<close>

type_synonym world = "string list \<times> mem list"

definition localCache :: "world BsMultiBs" where
  "localCache = \<lparr>bs = logged ''local'' (memBs 0), id' = None, priority = 0,
                  read = True, write' = True\<rparr>"

definition remotePeer :: "world BsMultiBs" where
  "remotePeer = \<lparr>bs = logged ''remote'' (memBs 1), id' = None, priority = 1,
                  read = True, write' = False\<rparr>"

definition bsMulti :: "world BsMulti" where
  "bsMulti = \<lparr>stores = [localCache, remotePeer]\<rparr>"

text \<open>The world in which the local cache holds the blobs \<open>cs\<close> and the remote store \<open>rs\<close>.\<close>

definition holding :: "content list \<Rightarrow> content list \<Rightarrow> world" where
  "holding cs rs = ([], [map stored cs, map stored rs])"

text \<open>A remote store whose reads of a single blob reject with a network error.\<close>

definition timingOut :: "world BsMultiBs" where
  "timingOut = remotePeer\<lparr>bs := logged ''remote'' ((memBs 1)
     \<lparr>bs_getBlob := (\<lambda>k options. rejects ''Network timeout''),
      bs_getBlobProperties := (\<lambda>k. rejects ''Network timeout''),
      bs_generateSignedUrl := (\<lambda>k expiresIn perms. rejects ''Network timeout'')\<rparr>)\<rparr>"

text \<open>A local cache whose \<open>getBlob\<close> rejects (\<open>failingStore\<close> of the tests).\<close>

definition failingStore :: "world BsMultiBs" where
  "failingStore = localCache\<lparr>bs := logged ''local'' ((memBs 0)
     \<lparr>bs_getBlob := (\<lambda>k options. rejects ''Store failure'')\<rparr>)\<rparr>"

text \<open>
  A remote store that lists its blobs one per page and rejects the call for the second
  page.
\<close>

definition secondPageFails :: "world BsMultiBs" where
  "secondPageFails = remotePeer\<lparr>bs := logged ''remote'' ((memBs 1)
     \<lparr>bs_listBlobs := (\<lambda>options.
        if opt_continuationToken options = None
        then bs_listBlobs (memBs 1) (options\<lparr>opt_maxResults := Some 1\<rparr>)
        else rejects ''Storage unavailable'')\<rparr>)\<rparr>"


definition noOptions :: ListBlobsOptions where
  "noOptions = \<lparr>opt_prefix = None, opt_maxResults = None, opt_continuationToken = None\<rparr>"

text \<open>
  A comparator to run \<open>listBlobs\<close> with. It orders strings of ASCII characters as
  \<open>localeCompare\<close> does in the default locale: characters that are neither digits nor letters
  come first, then the digits, then the letters without regard to case; strings that differ
  only in case have the one with the lower-case letter first. So \<open>a\<close> sorts before \<open>B\<close>,
  and \<open>b\<close> before \<open>B\<close>.
\<close>

definition collationKey :: "char \<Rightarrow> nat" where
  "collationKey c =
     (let n = (of_char c :: nat)
      in if 48 \<le> n \<and> n \<le> 57 then 256 + n
         else if 97 \<le> n \<and> n \<le> 122 then 512 + n
         else if 65 \<le> n \<and> n \<le> 90 then 512 + n + 32
         else n)"

definition asciiLocaleCompare :: "string \<Rightarrow> string \<Rightarrow> int" where
  "asciiLocaleCompare a b =
     (if map collationKey a < map collationKey b then - 1
      else if map collationKey b < map collationKey a then 1
      else if a = b then 0
      else if b < a then - 1
      else 1)"

section \<open>Initialization and the derived views\<close>

lemma init_from_idem: "init_from idx (init_from idx ss) = init_from idx ss"
  by (induction ss arbitrary: idx) auto

lemma init_from_rest:
  "map (\<lambda>s. s\<lparr>id' := None\<rparr>) (init_from idx ss) = map (\<lambda>s. s\<lparr>id' := None\<rparr>) ss"
  by (induction ss arbitrary: idx) auto

lemma init_from_zip:
  "init_from idx ss =
     map (\<lambda>(i, s). s\<lparr>id' := Some (''bs-'' @ show_nat i)\<rparr>) (zip [idx ..< idx + length ss] ss)"
proof (induction ss arbitrary: idx)
  case Nil
  then show ?case by simp
next
  case (Cons s ss)
  have "[idx ..< idx + length (s # ss)] = idx # [Suc idx ..< Suc idx + length ss]"
    using upt_conv_Cons [of idx "idx + length (s # ss)"] by simp
  then show ?case using Cons.IH [of "Suc idx"] by simp
qed





lemma no_readable: "\<forall>b\<in>set (stores m). \<not> read b \<Longrightarrow> readables m = []"
  by (simp add: readables_def filter_empty_conv)

lemma no_writable: "\<forall>b\<in>set (stores m). \<not> write' b \<Longrightarrow> writables m = []"
  by (simp add: writables_def filter_empty_conv)

text \<open>
  Claim C4, as the specification states it: \<open>init\<close> gives a binding an id only if the caller
  supplied none, so an id supplied by the caller survives. The code does not do that: the
  local cache of the tests, constructed with the id \<open>cache\<close>, has the id \<open>bs-0\<close> after
  \<open>init\<close>.
\<close>

theorem init_overwrites_supplied_id:
  "id' (stores (init \<lparr>stores = [localCache\<lparr>id' := Some ''cache''\<rparr>, remotePeer]\<rparr>) ! 0)
     = Some ''bs-0''
   \<and> id' (stores (init \<lparr>stores = [localCache\<lparr>id' := Some ''cache''\<rparr>, remotePeer]\<rparr>) ! 0)
     \<noteq> Some ''cache''"
  by code_simp

text \<open>
  Claim C4, amended: \<open>init\<close> gives every binding the id \<open>bs-<index>\<close>, its position in the
  sequence in decimal, whether or not the caller supplied an id; calling it a second time
  leaves the sequence exactly as after the first call; and nothing but the ids changes
  (the bindings with their ids erased are the same before and after).
\<close>

theorem init_assigns_all_ids:
  "stores (init m) =
     map (\<lambda>(i, s). s\<lparr>id' := Some (''bs-'' @ show_nat i)\<rparr>) (zip [0 ..< length (stores m)] (stores m))
   \<and> init (init m) = init m
   \<and> map (\<lambda>s. s\<lparr>id' := None\<rparr>) (stores (init m)) = map (\<lambda>s. s\<lparr>id' := None\<rparr>) (stores m)"
proof (intro conjI)
  show "stores (init m) =
     map (\<lambda>(i, s). s\<lparr>id' := Some (''bs-'' @ show_nat i)\<rparr>) (zip [0 ..< length (stores m)] (stores m))"
    using init_from_zip [of 0 "stores m"] by (simp add: init_def)
  show "init (init m) = init m"
    by (simp add: init_def init_from_idem)
  show "map (\<lambda>s. s\<lparr>id' := None\<rparr>) (stores (init m)) = map (\<lambda>s. s\<lparr>id' := None\<rparr>) (stores m)"
    by (simp add: init_def init_from_rest)
qed

text \<open>The amended claim on the configuration of the tests: the ids are \<open>bs-0\<close> and \<open>bs-1\<close>.\<close>

theorem init_assigns_all_ids_witness:
  "map id' (stores (init bsMulti)) = [Some ''bs-0'', Some ''bs-1'']
   \<and> init (init bsMulti) = init bsMulti"
proof -
  have "map id' (map (\<lambda>(i, s). s\<lparr>id' := Some (''bs-'' @ show_nat i)\<rparr>)
          (zip [0 ..< length (stores bsMulti)] (stores bsMulti))) = [Some ''bs-0'', Some ''bs-1'']"
    by code_simp
  with init_assigns_all_ids [of bsMulti] show ?thesis by simp
qed

text \<open>
  Claim C8: for every binding sequence, \<open>readables\<close> and \<open>writables\<close> are exactly the bindings
  whose \<open>read\<close> (respectively \<open>write\<close>) flag is true, each as often as it occurs in the
  sequence; they are sorted ascending by priority; the bindings of one priority keep the
  order they have in the sequence (the sort is stable); and the views are computed from the
  sequence that is current at the call, whatever it was before.
\<close>

theorem views_filter_sorted_stable:
  "mset (readables m) = mset (filter read (stores m))
   \<and> sorted (map priority (readables m))
   \<and> (\<forall>k. filter (\<lambda>b. priority b = k) (readables m)
          = filter (\<lambda>b. priority b = k) (filter read (stores m)))
   \<and> mset (writables m) = mset (filter write' (stores m))
   \<and> sorted (map priority (writables m))
   \<and> (\<forall>k. filter (\<lambda>b. priority b = k) (writables m)
          = filter (\<lambda>b. priority b = k) (filter write' (stores m)))
   \<and> (\<forall>ss. readables (m\<lparr>stores := ss\<rparr>) = sort_key priority (filter read ss)
          \<and> writables (m\<lparr>stores := ss\<rparr>) = sort_key priority (filter write' ss))"
  by (simp add: readables_def writables_def sort_key_stable)

section \<open>Configuration errors\<close>

text \<open>
  Claim C7: when no binding is writable, \<open>setBlob\<close> and \<open>deleteBlob\<close> fail with
  \<open>No writable Bs available\<close>; when no binding is readable, \<open>getBlob\<close>, \<open>getBlobStream\<close>,
  \<open>listBlobs\<close>, \<open>blobExists\<close>, \<open>getBlobProperties\<close> and \<open>generateSignedUrl\<close> fail with
  \<open>No readable Bs available\<close>. No store is contacted: the methods of the stores are
  arbitrary transformers of the world, and the world comes back as it was. \<open>listBlobs\<close>
  returns this error whatever its fuel.
\<close>

theorem configuration_errors_eager:
  "((\<forall>b\<in>set (stores m). \<not> write' b) \<longrightarrow>
      setBlob m c w = (Inl (Error ''No writable Bs available''), w)
      \<and> deleteBlob m k w = (Inl (Error ''No writable Bs available''), w))
   \<and> ((\<forall>b\<in>set (stores m). \<not> read b) \<longrightarrow>
      getBlob m k dl w = (Inl (Error ''No readable Bs available''), w)
      \<and> getBlobStream m k w = (Inl (Error ''No readable Bs available''), w)
      \<and> listBlobs fuel lc m lo w = Some (Inl (Error ''No readable Bs available''), w)
      \<and> blobExists m k w = (Inl (Error ''No readable Bs available''), w)
      \<and> getBlobProperties m k w = (Inl (Error ''No readable Bs available''), w)
      \<and> generateSignedUrl m k ex pm w = (Inl (Error ''No readable Bs available''), w))"
  by (simp add: no_readable no_writable setBlob_def deleteBlob_def getBlob_def getBlobStream_def
      listBlobs_def blobExists_def getBlobProperties_def generateSignedUrl_def)

text \<open>
  On the read-only remote store alone a write fails, and on a write-only cache a read
  fails; the log of the calls made on the stores stays empty.
\<close>

theorem configuration_errors_eager_witness:
  "filter write' (stores \<lparr>stores = [remotePeer]\<rparr>) = []
   \<and> setBlob \<lparr>stores = [remotePeer]\<rparr> ''test'' (holding [] [''kept''])
       = (Inl (Error ''No writable Bs available''), ([], [[], [stored ''kept'']]))
   \<and> filter read (stores \<lparr>stores = [localCache\<lparr>read := False\<rparr>]\<rparr>) = []
   \<and> getBlob \<lparr>stores = [localCache\<lparr>read := False\<rparr>]\<rparr> (digest ''kept'') None (holding [''kept''] [])
       = (Inl (Error ''No readable Bs available''), ([], [[stored ''kept''], []]))"
proof -
  have h1: "\<forall>b\<in>set (stores \<lparr>stores = [remotePeer]\<rparr>). \<not> write' b"
    by (simp add: remotePeer_def)
  have h2: "\<forall>b\<in>set (stores \<lparr>stores = [localCache\<lparr>read := False\<rparr>]\<rparr>). \<not> read b"
    by (simp add: localCache_def)
  from h1 h2
    configuration_errors_eager [of "\<lparr>stores = [remotePeer]\<rparr>" "''test''" "holding [] [''kept'']"]
    configuration_errors_eager [of "\<lparr>stores = [localCache\<lparr>read := False\<rparr>]\<rparr>" _
      "holding [''kept''] []" "digest ''kept''" None]
  show ?thesis by (simp add: holding_def)
qed

section \<open>setBlob\<close>

lemma promiseAll_world:
  "snd (promiseAll (map f xs) w) = foldl (\<lambda>w x. snd (f x w)) w xs"
  by (induction xs arbitrary: w) (simp_all add: case_prod_beta)

lemma promiseAll_first:
  "promiseAll (map f (x # xs)) w = (Inr rs, w') \<Longrightarrow> rs \<noteq> [] \<and> fst (f x w) = Inr (rs ! 0)"
  by (auto split: prod.splits sum.splits)

text \<open>
  Claim C9: when \<open>setBlob\<close> succeeds, the properties it returns are those that the first
  writable binding in priority order (the head of \<open>writables\<close>) returned for its write, and
  the world it returns is the world after the write of every writable binding.
\<close>

theorem setBlob_returns_first_writable:
  assumes "setBlob m c w = (Inr p, w')"
  shows "writables m \<noteq> []
         \<and> fst (bs_setBlob (bs (hd (writables m))) c w) = Inr p
         \<and> w' = foldl (\<lambda>w b. snd (bs_setBlob (bs b) c w)) w (writables m)"
proof -
  from assms have ne: "writables m \<noteq> []"
    by (auto simp: setBlob_def)
  then obtain b rest where wr: "writables m = b # rest"
    by (cases "writables m") auto
  from assms ne obtain rs where
    pa: "promiseAll (map (\<lambda>b. bs_setBlob (bs b) c) (writables m)) w = (Inr rs, w')"
    and p: "p = rs ! 0"
    by (auto simp: setBlob_def split: prod.splits sum.splits)
  from pa wr have "fst (bs_setBlob (bs b) c w) = Inr (rs ! 0)"
    using promiseAll_first [of "\<lambda>b. bs_setBlob (bs b) c" b rest w rs w'] by simp
  moreover from pa have "w' = foldl (\<lambda>w b. snd (bs_setBlob (bs b) c w)) w (writables m)"
    using promiseAll_world [of "\<lambda>b. bs_setBlob (bs b) c" "writables m" w] by simp
  ultimately show ?thesis using ne wr p by simp
qed

text \<open>
  Two writable caches, the one of priority 1 first in the sequence, the one of priority 0
  already holding the blob with an older date: the properties returned are those of the
  cache of priority 0.
\<close>

theorem setBlob_returns_first_writable_witness:
  "setBlob \<lparr>stores = [remotePeer\<lparr>write' := True\<rparr>, localCache]\<rparr> ''x''
      ([], [[(digest ''x'', (''x'', (propsOf ''x'')\<lparr>createdAt := - 5\<rparr>))], []])
     = (Inr ((propsOf ''x'')\<lparr>createdAt := - 5\<rparr>),
        ([''local.setBlob'', ''remote.setBlob''],
         [[(digest ''x'', (''x'', (propsOf ''x'')\<lparr>createdAt := - 5\<rparr>))], [stored ''x'']]))
   \<and> fst (bs_setBlob (bs (hd (writables \<lparr>stores = [remotePeer\<lparr>write' := True\<rparr>, localCache]\<rparr>))) ''x''
      ([], [[(digest ''x'', (''x'', (propsOf ''x'')\<lparr>createdAt := - 5\<rparr>))], []]))
     = Inr ((propsOf ''x'')\<lparr>createdAt := - 5\<rparr>)"
proof -
  have h: "setBlob \<lparr>stores = [remotePeer\<lparr>write' := True\<rparr>, localCache]\<rparr> ''x''
      ([], [[(digest ''x'', (''x'', (propsOf ''x'')\<lparr>createdAt := - 5\<rparr>))], []])
     = (Inr ((propsOf ''x'')\<lparr>createdAt := - 5\<rparr>),
        ([''local.setBlob'', ''remote.setBlob''],
         [[(digest ''x'', (''x'', (propsOf ''x'')\<lparr>createdAt := - 5\<rparr>))], [stored ''x'']]))"
    by code_simp
  from setBlob_returns_first_writable [OF h] h show ?thesis by simp
qed

section \<open>getBlob and the other fan-out reads\<close>

lemma tryReadables_allReject:
  "allReject attempt pre w = Some (es, w1) \<Longrightarrow>
   tryReadables attempt (pre @ rest) errs w = tryReadables attempt rest (errs @ es) w1"
proof (induction pre arbitrary: w es errs)
  case Nil
  then show ?case by simp
next
  case (Cons b pre)
  from Cons.prems obtain e w' es' where
    att: "attempt b w = (Inl e, w')" and rest: "allReject attempt pre w' = Some (es', w1)"
    and es: "es = e # es'"
    by (auto split: prod.splits sum.splits option.splits)
  from Cons.IH [OF rest, of "errs @ [e]"] att es show ?case by simp
qed

lemma hotSwapWrites_Nil_if:
  "(if length ws > 0 then hotSwapWrites (filter P ws) c w else w) = hotSwapWrites (filter P ws) c w"
  by (cases ws) auto

text \<open>
  What \<open>getBlob\<close> does when the readables before \<open>s\<close> reject and \<open>s\<close> answers: it returns the
  answer of \<open>s\<close>, after a \<open>setBlob\<close> of the content on every writable whose id is not the id
  of \<open>s\<close>, whatever these writes return.
\<close>

lemma getBlob_served:
  assumes rd: "readables m = pre @ s # post"
    and rej: "allReject (\<lambda>b. bs_getBlob (bs b) k dl) pre w = Some (es, w1)"
    and ok: "bs_getBlob (bs s) k dl w1 = (Inr r, w2)"
  shows "getBlob m k dl w =
           (Inr r, hotSwapWrites (filter (\<lambda>b. id' b \<noteq> Some (idOrEmpty s)) (writables m)) (fst r) w2)"
proof -
  have "tryReadables (\<lambda>b. bs_getBlob (bs b) k dl) (readables m) [] w
          = ((Some (r, s), es), w2)"
    using tryReadables_allReject [OF rej, of "s # post" "[]"] ok rd by simp
  moreover have "length (readables m) \<noteq> 0" using rd by simp
  ultimately show ?thesis
    by (simp add: getBlob_def Let_def hotSwapWrites_Nil_if del: length_greater_0_conv)
qed

text \<open>
  Claim C1 says that when every readable fails and the failures are mixed, the call fails
  with the first error that is not a not-found error. The code throws \<open>errors[0]\<close>, the
  first error of any kind (its comment says "Throw first non-"not found" error"). With an
  empty local cache (priority 0), which rejects with \<open>Blob not found: abc\<close>, and a remote
  store (priority 1) that rejects with \<open>Network timeout\<close>, both stores are asked, and
  \<open>getBlob\<close>, \<open>getBlobProperties\<close> and \<open>generateSignedUrl\<close> all fail with the not-found
  error of the cache, not with \<open>Network timeout\<close>.
\<close>

theorem mixed_failures_surface_first_error:
  "fst (bs_getBlob (bs localCache) ''abc'' None (holding [] []))
     = Inl (Error ''Blob not found: abc'')
   \<and> fst (bs_getBlob (bs timingOut) ''abc'' None (holding [] []))
     = Inl (Error ''Network timeout'')
   \<and> isNotFound (Error ''Network timeout'') = False
   \<and> getBlob \<lparr>stores = [localCache, timingOut]\<rparr> ''abc'' None (holding [] [])
     = (Inl (Error ''Blob not found: abc''), ([''local.getBlob'', ''remote.getBlob''], [[], []]))
   \<and> getBlobProperties \<lparr>stores = [localCache, timingOut]\<rparr> ''abc'' (holding [] [])
     = (Inl (Error ''Blob not found: abc''),
        ([''local.getBlobProperties'', ''remote.getBlobProperties''], [[], []]))
   \<and> generateSignedUrl \<lparr>stores = [localCache, timingOut]\<rparr> ''abc'' 3600 PermRead (holding [] [])
     = (Inl (Error ''Blob not found: abc''),
        ([''local.generateSignedUrl'', ''remote.generateSignedUrl''], [[], []]))"
  by code_simp

text \<open>
  Claim C2, as the specification states it: when the readable of highest priority fails with
  an error that is not a not-found error and a readable of lower priority holds the blob,
  \<open>getBlob\<close> fails with that error. The code goes on to the next readable instead. In the
  test "should handle errors from individual stores gracefully" the store of priority 0
  rejects with \<open>Store failure\<close>, the store of priority 1 holds the blob, and \<open>getBlob\<close>
  returns the blob.
\<close>

theorem getBlob_error_does_not_take_precedence:
  "fst (bs_getBlob (bs failingStore) (digest ''Test'') None (holding [] [''Test'']))
     = Inl (Error ''Store failure'')
   \<and> isNotFound (Error ''Store failure'') = False
   \<and> getBlob \<lparr>stores = [failingStore, remotePeer]\<rparr> (digest ''Test'') None (holding [] [''Test''])
     = (Inr (''Test'', propsOf ''Test''),
        ([''local.getBlob'', ''remote.getBlob'', ''local.setBlob''],
         [[stored ''Test''], [stored ''Test'']]))"
  by code_simp

text \<open>
  Claim C2, amended: when the readable of highest priority fails (with any error) and a
  readable of lower priority holds the blob, \<open>getBlob\<close> does not fail: it returns what the
  first readable in priority order whose fetch succeeds returns. In the theorem \<open>pre\<close> are
  the readables before that one, which all reject.
\<close>

theorem getBlob_falls_back_to_lower_tier:
  assumes "readables m = pre @ s # post"
    and "allReject (\<lambda>b. bs_getBlob (bs b) k dl) pre w = Some (es, w1)"
    and "bs_getBlob (bs s) k dl w1 = (Inr r, w2)"
  shows "fst (getBlob m k dl w) = Inr r"
  using getBlob_served [OF assms] by simp

theorem getBlob_falls_back_to_lower_tier_witness:
  "readables \<lparr>stores = [failingStore, remotePeer]\<rparr> = [failingStore] @ remotePeer # []
   \<and> allReject (\<lambda>b. bs_getBlob (bs b) (digest ''Test'') None) [failingStore]
        (holding [] [''Test''])
       = Some ([Error ''Store failure''], ([''local.getBlob''], [[], [stored ''Test'']]))
   \<and> bs_getBlob (bs remotePeer) (digest ''Test'') None ([''local.getBlob''], [[], [stored ''Test'']])
       = (Inr (''Test'', propsOf ''Test''),
          ([''local.getBlob'', ''remote.getBlob''], [[], [stored ''Test'']]))
   \<and> fst (getBlob \<lparr>stores = [failingStore, remotePeer]\<rparr> (digest ''Test'') None
             (holding [] [''Test'']))
       = Inr (''Test'', propsOf ''Test'')"
proof -
  have rd: "readables \<lparr>stores = [failingStore, remotePeer]\<rparr> = [failingStore] @ remotePeer # []"
    by (simp add: readables_def failingStore_def remotePeer_def localCache_def)
  have rej: "allReject (\<lambda>b. bs_getBlob (bs b) (digest ''Test'') None) [failingStore]
        (holding [] [''Test''])
       = Some ([Error ''Store failure''], ([''local.getBlob''], [[], [stored ''Test'']]))"
    by code_simp
  have ok: "bs_getBlob (bs remotePeer) (digest ''Test'') None
        ([''local.getBlob''], [[], [stored ''Test'']])
       = (Inr (''Test'', propsOf ''Test''),
          ([''local.getBlob'', ''remote.getBlob''], [[], [stored ''Test'']]))"
    by code_simp
  from getBlob_falls_back_to_lower_tier [OF rd rej ok] rd rej ok show ?thesis
    by blast
qed

text \<open>
  Claim C5 says that after a \<open>getBlob\<close> served by the tier \<open>T\<close>, once the cache writes have
  succeeded, every writable binding other than \<open>T\<close> reports that the blob exists. The
  hot-swap writes \<open>result.content\<close>, and with a byte range in the options that is a part of
  the blob (the doc comment of \<open>getBlob\<close> says it "hot-swaps the blob"). After \<open>init\<close>, with
  the blob \<open>0123456789\<close> in the remote store only, \<open>getBlob\<close> with the range from 2 to 5 is
  served by \<open>bs-1\<close> and returns \<open>234\<close>; the write of \<open>234\<close> to the cache \<open>bs-0\<close> is made and
  succeeds; the cache then holds \<open>234\<close> under the digest of \<open>234\<close>, and answers \<open>false\<close>
  when asked whether the blob that was fetched exists.
\<close>

theorem hot_swap_of_byte_range_caches_fragment:
  "map id' (stores (init bsMulti)) = [Some ''bs-0'', Some ''bs-1'']
   \<and> getBlob (init bsMulti) (digest ''0123456789'') (Some \<lparr>range_opt = Some (2, Some 5)\<rparr>)
        (holding [] [''0123456789''])
     = (Inr (''234'', propsOf ''0123456789''),
        ([''local.getBlob'', ''remote.getBlob'', ''local.setBlob''],
         [[stored ''234''], [stored ''0123456789'']]))
   \<and> fst (bs_setBlob (memBs 0) ''234'' [[], [stored ''0123456789'']]) = Inr (propsOf ''234'')
   \<and> fst (bs_blobExists (memBs 0) (digest ''0123456789'')
             [[stored ''234''], [stored ''0123456789'']]) = Inr False"
  by code_simp










section \<open>listBlobs: collecting from the readables\<close>

lemma keys_addBlob: "fst ` set (addBlob bm b) = insert (blobId b) (fst ` set bm)"
  by (auto simp: addBlob_def map_of_eq_None_iff image_iff)

lemma keys_foldl_addBlob: "fst ` set (foldl addBlob bm bl) = fst ` set bm \<union> blobId ` set bl"
  by (induction bl arbitrary: bm) (auto simp: keys_addBlob)

lemma entries_addBlob:
  "\<forall>e\<in>set bm. blobId (snd e) = fst e \<Longrightarrow> \<forall>e\<in>set (addBlob bm b). blobId (snd e) = fst e"
  by (auto simp: addBlob_def)

lemma entries_foldl_addBlob:
  "\<forall>e\<in>set bm. blobId (snd e) = fst e \<Longrightarrow>
   \<forall>e\<in>set (foldl addBlob bm bl). blobId (snd e) = fst e"
proof (induction bl arbitrary: bm)
  case Nil
  then show ?case by simp
next
  case (Cons b bl)
  from Cons.IH [OF entries_addBlob [OF Cons.prems]] show ?case by simp
qed

lemma distinct_addBlob: "distinct (map fst bm) \<Longrightarrow> distinct (map fst (addBlob bm b))"
  by (auto simp: addBlob_def map_of_eq_None_iff)

lemma distinct_foldl_addBlob:
  "distinct (map fst bm) \<Longrightarrow> distinct (map fst (foldl addBlob bm bl))"
proof (induction bl arbitrary: bm)
  case Nil
  then show ?case by simp
next
  case (Cons b bl)
  from Cons.IH [OF distinct_addBlob [OF Cons.prems]] show ?case by simp
qed

lemma wf_foldl_addBlob: "wf_blobMap bm \<Longrightarrow> wf_blobMap (foldl addBlob bm bl)"
  using entries_foldl_addBlob [of bm bl] distinct_foldl_addBlob [of bm bl]
  by (simp add: wf_blobMap_def list_all_iff)

text \<open>
  One round of the loop over the pages of a store either ends the loop, with the map as it
  is or with the page added, or goes on with the page added.
\<close>

lemma collectPages_step:
  assumes "collectPages (Suc fuel) store pfx tok bm w = Some (bm', w')"
  shows "bm' = bm
         \<or> (\<exists>result :: ListBlobsResult. bm' = foldl addBlob bm (blobs result))
         \<or> (\<exists>(result :: ListBlobsResult) w1. collectPages fuel store pfx (continuationToken result)
                            (foldl addBlob bm (blobs result)) w1 = Some (bm', w'))"
proof (cases "bs_listBlobs store
    \<lparr>opt_prefix = pfx, opt_maxResults = Some 1000, opt_continuationToken = tok\<rparr> w")
  case (Pair res w1)
  show ?thesis
  proof (cases res)
    case (Inl e)
    with Pair assms show ?thesis by simp
  next
    case (Inr result)
    show ?thesis
    proof (cases "truthy (continuationToken result)")
      case True
      with Pair Inr assms have
        "collectPages fuel store pfx (continuationToken result)
           (foldl addBlob bm (blobs result)) w1 = Some (bm', w')"
        by simp
      then show ?thesis by blast
    next
      case False
      with Pair Inr assms have "bm' = foldl addBlob bm (blobs result)"
        by simp
      then show ?thesis by blast
    qed
  qed
qed

lemma collectPages_keys_mono:
  "collectPages fuel store pfx tok bm w = Some (bm', w') \<Longrightarrow> fst ` set bm \<subseteq> fst ` set bm'"
proof (induction fuel arbitrary: tok bm w)
  case 0
  then show ?case by simp
next
  case (Suc fuel)
  from collectPages_step [OF Suc.prems] show ?case
  proof (elim disjE exE)
    assume "bm' = bm"
    then show ?thesis by simp
  next
    fix result :: ListBlobsResult
    assume "bm' = foldl addBlob bm (blobs result)"
    then show ?thesis by (simp add: keys_foldl_addBlob)
  next
    fix result :: ListBlobsResult and w1
    assume "collectPages fuel store pfx (continuationToken result)
              (foldl addBlob bm (blobs result)) w1 = Some (bm', w')"
    from Suc.IH [OF this] show ?thesis by (auto simp: keys_foldl_addBlob)
  qed
qed

lemma collectPages_wf:
  "collectPages fuel store pfx tok bm w = Some (bm', w') \<Longrightarrow> wf_blobMap bm \<Longrightarrow> wf_blobMap bm'"
proof (induction fuel arbitrary: tok bm w)
  case 0
  then show ?case by simp
next
  case (Suc fuel)
  from collectPages_step [OF Suc.prems(1)] show ?case
  proof (elim disjE exE)
    assume "bm' = bm"
    with Suc.prems(2) show ?thesis by simp
  next
    fix result :: ListBlobsResult
    assume "bm' = foldl addBlob bm (blobs result)"
    with wf_foldl_addBlob [OF Suc.prems(2)] show ?thesis by simp
  next
    fix result :: ListBlobsResult and w1
    assume "collectPages fuel store pfx (continuationToken result)
              (foldl addBlob bm (blobs result)) w1 = Some (bm', w')"
    from Suc.IH [OF this wf_foldl_addBlob [OF Suc.prems(2)]] show ?thesis .
  qed
qed

lemma collectAll_keys_mono:
  "collectAll fuel tiers pfx bm w = Some (bm', w') \<Longrightarrow> fst ` set bm \<subseteq> fst ` set bm'"
proof (induction tiers arbitrary: bm w)
  case Nil
  then show ?case by simp
next
  case (Cons t tiers)
  from Cons.prems obtain bm1 w1 where
    one: "collectPages fuel (bs t) pfx None bm w = Some (bm1, w1)"
    and rest: "collectAll fuel tiers pfx bm1 w1 = Some (bm', w')"
    by (auto split: option.splits)
  from collectPages_keys_mono [OF one] Cons.IH [OF rest] show ?case by blast
qed

lemma collectAll_wf:
  "collectAll fuel tiers pfx bm w = Some (bm', w') \<Longrightarrow> wf_blobMap bm \<Longrightarrow> wf_blobMap bm'"
proof (induction tiers arbitrary: bm w)
  case Nil
  then show ?case by simp
next
  case (Cons t tiers)
  from Cons.prems obtain bm1 w1 where
    one: "collectPages fuel (bs t) pfx None bm w = Some (bm1, w1)"
    and rest: "collectAll fuel tiers pfx bm1 w1 = Some (bm', w')"
    by (auto split: option.splits)
  from Cons.IH [OF rest collectPages_wf [OF one Cons.prems(2)]] show ?case .
qed

lemma collectAll_append:
  "collectAll fuel pre pfx bm w = Some (bm1, w1) \<Longrightarrow>
   collectAll fuel (pre @ rest) pfx bm w = collectAll fuel rest pfx bm1 w1"
  by (induction pre arbitrary: bm w) (auto split: option.splits)

lemma blobIds_of_map: "wf_blobMap bm \<Longrightarrow> map blobId (map snd bm) = map fst bm"
  by (induction bm) (auto simp: wf_blobMap_def)

lemma collectPages_until_error:
  "pagesUntilError fuel store pfx tok w = Some (pages, w') \<Longrightarrow>
   collectPages fuel store pfx tok bm w = Some (foldl addBlob bm (concat (map blobs pages)), w')"
proof (induction fuel arbitrary: tok w bm pages)
  case 0
  then show ?case by simp
next
  case (Suc fuel)
  show ?case
  proof (cases "bs_listBlobs store
      \<lparr>opt_prefix = pfx, opt_maxResults = Some 1000, opt_continuationToken = tok\<rparr> w")
    case (Pair res w1)
    show ?thesis
    proof (cases res)
      case (Inl e)
      with Pair Suc.prems show ?thesis by simp
    next
      case (Inr result)
      with Pair Suc.prems obtain rest where
        tr: "truthy (continuationToken result)"
        and more: "pagesUntilError fuel store pfx (continuationToken result) w1 = Some (rest, w')"
        and pages: "pages = result # rest"
        by (auto split: if_splits option.splits)
      from Suc.IH [OF more, of "foldl addBlob bm (blobs result)"] Pair Inr tr pages
      show ?thesis by simp
    qed
  qed
qed

text \<open>In \<open>blobMap\<close> the first blob that arrives under an id stays.\<close>

lemma map_of_addBlob:
  "map_of (addBlob bm b) k =
     (case map_of bm k of Some v \<Rightarrow> Some v | None \<Rightarrow> if blobId b = k then Some b else None)"
  by (auto simp: addBlob_def map_add_def split: option.splits)

lemma map_of_foldl_addBlob:
  "map_of (foldl addBlob bm bl) k =
     (case map_of bm k of Some v \<Rightarrow> Some v | None \<Rightarrow> find (\<lambda>b. blobId b = k) bl)"
proof (induction bl arbitrary: bm)
  case Nil
  then show ?case by (simp split: option.splits)
next
  case (Cons b bl)
  show ?case
    by (simp add: Cons.IH map_of_addBlob split: option.splits)
qed

lemma collectPages_keeps:
  "collectPages fuel store pfx tok bm w = Some (bm', w') \<Longrightarrow> map_of bm k = Some v \<Longrightarrow>
   map_of bm' k = Some v"
proof (induction fuel arbitrary: tok bm w)
  case 0
  then show ?case by simp
next
  case (Suc fuel)
  from collectPages_step [OF Suc.prems(1)] show ?case
  proof (elim disjE exE)
    assume "bm' = bm"
    with Suc.prems(2) show ?thesis by simp
  next
    fix result :: ListBlobsResult
    assume "bm' = foldl addBlob bm (blobs result)"
    with Suc.prems(2) show ?thesis by (simp add: map_of_foldl_addBlob)
  next
    fix result :: ListBlobsResult and w1
    assume step: "collectPages fuel store pfx (continuationToken result)
              (foldl addBlob bm (blobs result)) w1 = Some (bm', w')"
    have "map_of (foldl addBlob bm (blobs result)) k = Some v"
      using Suc.prems(2) by (simp add: map_of_foldl_addBlob)
    from Suc.IH [OF step this] show ?thesis .
  qed
qed

lemma collectAll_keeps:
  "collectAll fuel tiers pfx bm w = Some (bm', w') \<Longrightarrow> map_of bm k = Some v \<Longrightarrow>
   map_of bm' k = Some v"
proof (induction tiers arbitrary: bm w)
  case Nil
  then show ?case by simp
next
  case (Cons t tiers)
  from Cons.prems obtain bm1 w1 where
    one: "collectPages fuel (bs t) pfx None bm w = Some (bm1, w1)"
    and rest: "collectAll fuel tiers pfx bm1 w1 = Some (bm', w')"
    by (auto split: option.splits)
  from Cons.IH [OF rest collectPages_keeps [OF one Cons.prems(2)]] show ?case .
qed

text \<open>The sort by a comparator rearranges the array and loses or adds nothing.\<close>

lemma mset_insertBy: "mset (insertBy cmp x xs) = add_mset x (mset xs)"
  by (induction xs) auto

lemma mset_js_sort: "mset (js_sort cmp xs) = mset xs"
  by (induction xs) (auto simp: js_sort_def mset_insertBy)

lemma set_js_sort: "set (js_sort cmp xs) = set xs"
  using mset_js_sort [of cmp xs] by (metis set_mset_mset)


lemma distinct_map_js_sort: "distinct (map f (js_sort cmp xs)) = distinct (map f xs)"
proof -
  have "mset (map f (js_sort cmp xs)) = mset (map f xs)"
    by (simp add: mset_js_sort)
  then show ?thesis by (rule mset_eq_imp_distinct_iff)
qed






text \<open>
  Claim C3, as the specification states it: a readable tier that errors during its own
  pagination contributes nothing to the merged result, the pages it delivered before the
  error are discarded. The code adds each page to \<open>blobMap\<close> when it arrives and has nothing
  that takes it out again. The remote store holds \<open>b\<close> and \<open>c\<close>, delivers \<open>b\<close> as its first
  page and rejects the call for the second page; the local cache holds \<open>a\<close>. The listing is
  \<open>a\<close>, \<open>b\<close>: the first page of the failed tier is in it.
\<close>

theorem listBlobs_retains_first_page_of_failed_tier:
  "pagesUntilError 5 (bs secondPageFails) None None
       ([''local.listBlobs''], [[stored ''a''], [stored ''b'', stored ''c'']])
     = Some ([\<lparr>blobs = [propsOf ''b''], continuationToken = Some (digest ''b'')\<rparr>],
             ([''local.listBlobs'', ''remote.listBlobs'', ''remote.listBlobs''],
              [[stored ''a''], [stored ''b'', stored ''c'']]))
   \<and> listBlobs 5 asciiLocaleCompare \<lparr>stores = [localCache, secondPageFails]\<rparr> noOptions
       (holding [''a''] [''b'', ''c''])
     = Some (Inr \<lparr>blobs = [propsOf ''a'', propsOf ''b''], continuationToken = None\<rparr>,
             ([''local.listBlobs'', ''remote.listBlobs'', ''remote.listBlobs''],
              [[stored ''a''], [stored ''b'', stored ''c'']]))"
  by code_simp

text \<open>
  Claim C3, amended: a readable tier that errors during its own pagination contributes the
  pages it delivered before the error: their blobs stay in the merged result, under the rule
  that the first blob to arrive under an id is the one kept (a tier that errors on its first
  page contributes nothing), and the call still succeeds with what the tiers give.
  In the theorem \<open>t\<close> is the tier that errors after delivering \<open>pages\<close>, \<open>pre\<close> are the
  readables before it, which leave the map \<open>bm1\<close>, and \<open>post\<close> the readables after it, which
  take the map with the blobs of \<open>pages\<close> added to the final map \<open>bm2\<close>. The call returns a
  page of the merged array, which is \<open>bm2\<close> sorted by \<open>localeCompare\<close>. A blob that an
  earlier tier gave is in the merged array; so is, for an id that no earlier tier gave, the
  first blob with this id in \<open>pages\<close>; and the merged array holds every id once.
\<close>

theorem listBlobs_keeps_pages_before_error:
  assumes rd: "readables m = pre @ t # post"
    and before: "collectAll fuel pre (opt_prefix lo) [] w = Some (bm1, w1)"
    and tier: "pagesUntilError fuel (bs t) (opt_prefix lo) None w1 = Some (pages, w2)"
    and after: "collectAll fuel post (opt_prefix lo)
                  (foldl addBlob bm1 (concat (map blobs pages))) w2 = Some (bm2, w3)"
  shows "listBlobs fuel lc m lo w
           = Some (Inr (paginate (js_sort (\<lambda>a b. lc (blobId a) (blobId b)) (map snd bm2)) lo), w3)
         \<and> (\<forall>k v. map_of bm1 k = Some v \<longrightarrow>
                v \<in> set (js_sort (\<lambda>a b. lc (blobId a) (blobId b)) (map snd bm2)))
         \<and> (\<forall>k b. map_of bm1 k = None \<longrightarrow>
                find (\<lambda>b. blobId b = k) (concat (map blobs pages)) = Some b \<longrightarrow>
                b \<in> set (js_sort (\<lambda>a b. lc (blobId a) (blobId b)) (map snd bm2)))
         \<and> distinct (map blobId (js_sort (\<lambda>a b. lc (blobId a) (blobId b)) (map snd bm2)))"
proof (intro conjI allI impI)
  let ?merged = "js_sort (\<lambda>a b. lc (blobId a) (blobId b)) (map snd bm2)"
  have "collectPages fuel (bs t) (opt_prefix lo) None bm1 w1
          = Some (foldl addBlob bm1 (concat (map blobs pages)), w2)"
    by (rule collectPages_until_error [OF tier])
  with after have "collectAll fuel (t # post) (opt_prefix lo) bm1 w1 = Some (bm2, w3)"
    by simp
  with collectAll_append [OF before, of "t # post"] rd
  have all: "collectAll fuel (readables m) (opt_prefix lo) [] w = Some (bm2, w3)"
    by simp
  moreover have "length (readables m) \<noteq> 0" using rd by simp
  ultimately show "listBlobs fuel lc m lo w = Some (Inr (paginate ?merged lo), w3)"
    by (simp add: listBlobs_def)
  have wf: "wf_blobMap bm2"
    using collectAll_wf [OF all] by (simp add: wf_blobMap_def)
  have member: "v \<in> set ?merged" if "map_of bm2 k = Some v" for k v
  proof -
    from that have "(k, v) \<in> set bm2" by (rule map_of_SomeD)
    then have "v \<in> set (map snd bm2)" by force
    then show ?thesis by (simp only: set_js_sort)
  qed
  show "v \<in> set ?merged" if "map_of bm1 k = Some v" for k v
  proof -
    from that have "map_of (foldl addBlob bm1 (concat (map blobs pages))) k = Some v"
      by (simp add: map_of_foldl_addBlob)
    from collectAll_keeps [OF after this] show ?thesis by (rule member)
  qed
  show "b \<in> set ?merged"
    if "map_of bm1 k = None" "find (\<lambda>b. blobId b = k) (concat (map blobs pages)) = Some b" for k b
  proof -
    from that have "map_of (foldl addBlob bm1 (concat (map blobs pages))) k = Some b"
      by (simp add: map_of_foldl_addBlob)
    from collectAll_keeps [OF after this] show ?thesis by (rule member)
  qed
  have "distinct (map blobId (map snd bm2))"
    using wf blobIds_of_map [OF wf] by (simp add: wf_blobMap_def del: map_map)
  then show "distinct (map blobId ?merged)"
    by (simp only: distinct_map_js_sort)
qed

text \<open>
  The local cache holds \<open>a\<close>; the remote store holds \<open>b\<close> and \<open>c\<close>, delivers \<open>b\<close> and fails
  on its second page. The blob \<open>a\<close> of the cache and the blob \<open>b\<close> of the failed tier are
  listed.
\<close>

theorem listBlobs_keeps_pages_before_error_witness:
  "readables \<lparr>stores = [localCache, secondPageFails]\<rparr> = [localCache] @ secondPageFails # []
   \<and> collectAll 5 [localCache] (opt_prefix noOptions) [] (holding [''a''] [''b'', ''c''])
       = Some ([(digest ''a'', propsOf ''a'')],
               ([''local.listBlobs''], [[stored ''a''], [stored ''b'', stored ''c'']]))
   \<and> pagesUntilError 5 (bs secondPageFails) (opt_prefix noOptions) None
         ([''local.listBlobs''], [[stored ''a''], [stored ''b'', stored ''c'']])
       = Some ([\<lparr>blobs = [propsOf ''b''], continuationToken = Some (digest ''b'')\<rparr>],
               ([''local.listBlobs'', ''remote.listBlobs'', ''remote.listBlobs''],
                [[stored ''a''], [stored ''b'', stored ''c'']]))
   \<and> listBlobs 5 asciiLocaleCompare \<lparr>stores = [localCache, secondPageFails]\<rparr> noOptions
         (holding [''a''] [''b'', ''c''])
       = Some (Inr \<lparr>blobs = [propsOf ''a'', propsOf ''b''], continuationToken = None\<rparr>,
               ([''local.listBlobs'', ''remote.listBlobs'', ''remote.listBlobs''],
                [[stored ''a''], [stored ''b'', stored ''c'']]))
   \<and> propsOf ''a'' \<in> set [propsOf ''a'', propsOf ''b'']
   \<and> propsOf ''b'' \<in> set [propsOf ''a'', propsOf ''b'']"
proof -
  let ?bm1 = "[(digest ''a'', propsOf ''a'')]"
  let ?pages = "[\<lparr>blobs = [propsOf ''b''], continuationToken = Some (digest ''b'')\<rparr>]"
  let ?bm2 = "[(digest ''a'', propsOf ''a''), (digest ''b'', propsOf ''b'')]"
  have rd: "readables \<lparr>stores = [localCache, secondPageFails]\<rparr>
              = [localCache] @ secondPageFails # []"
    by (simp add: readables_def secondPageFails_def remotePeer_def localCache_def)
  have before: "collectAll 5 [localCache] (opt_prefix noOptions) []
                  (holding [''a''] [''b'', ''c''])
       = Some (?bm1, ([''local.listBlobs''], [[stored ''a''], [stored ''b'', stored ''c'']]))"
    by code_simp
  have tier: "pagesUntilError 5 (bs secondPageFails) (opt_prefix noOptions) None
         ([''local.listBlobs''], [[stored ''a''], [stored ''b'', stored ''c'']])
       = Some (?pages,
               ([''local.listBlobs'', ''remote.listBlobs'', ''remote.listBlobs''],
                [[stored ''a''], [stored ''b'', stored ''c'']]))"
    by code_simp
  have after: "collectAll 5 [] (opt_prefix noOptions)
         (foldl addBlob ?bm1 (concat (map blobs ?pages)))
         ([''local.listBlobs'', ''remote.listBlobs'', ''remote.listBlobs''],
          [[stored ''a''], [stored ''b'', stored ''c'']])
       = Some (?bm2,
               ([''local.listBlobs'', ''remote.listBlobs'', ''remote.listBlobs''],
                [[stored ''a''], [stored ''b'', stored ''c'']]))"
    by code_simp
  have merged: "js_sort (\<lambda>a b. asciiLocaleCompare (blobId a) (blobId b)) (map snd ?bm2)
       = [propsOf ''a'', propsOf ''b'']"
    by code_simp
  have page: "paginate [propsOf ''a'', propsOf ''b''] noOptions
       = \<lparr>blobs = [propsOf ''a'', propsOf ''b''], continuationToken = None\<rparr>"
    by code_simp
  have fromCache: "map_of ?bm1 (digest ''a'') = Some (propsOf ''a'')"
    by simp
  have notCached: "map_of ?bm1 (digest ''b'') = None"
    by (simp add: digest_def)
  have firstB: "find (\<lambda>b. blobId b = digest ''b'') (concat (map blobs ?pages)) = Some (propsOf ''b'')"
    by (simp add: propsOf_def)
  note kept = listBlobs_keeps_pages_before_error [OF rd before tier after, of asciiLocaleCompare]
  from kept have "listBlobs 5 asciiLocaleCompare \<lparr>stores = [localCache, secondPageFails]\<rparr> noOptions
         (holding [''a''] [''b'', ''c''])
       = Some (Inr (paginate (js_sort (\<lambda>a b. asciiLocaleCompare (blobId a) (blobId b))
                                (map snd ?bm2)) noOptions),
               ([''local.listBlobs'', ''remote.listBlobs'', ''remote.listBlobs''],
                [[stored ''a''], [stored ''b'', stored ''c'']]))"
    by blast
  moreover from kept fromCache
  have "propsOf ''a'' \<in> set (js_sort (\<lambda>a b. asciiLocaleCompare (blobId a) (blobId b)) (map snd ?bm2))"
    by blast
  moreover from kept notCached firstB
  have "propsOf ''b'' \<in> set (js_sort (\<lambda>a b. asciiLocaleCompare (blobId a) (blobId b)) (map snd ?bm2))"
    by blast
  ultimately show ?thesis
    using rd before tier by (simp only: merged page)
qed

section \<open>listBlobs: the pages of the merged result\<close>



















end
